theory Spec2Isabelle
  imports Complex_Main
begin

section \<open>The fan entity of fan\_3d\_simulation.py\<close>

text \<open>
  The program computes with Python floats and numpy arrays. The embedding reads every
  float as a real number, so a sum, product, sine or square root below is the exact
  one and rounding is not modelled. Python ints that are only ever used as numbers in
  float expressions (the initial \<open>angle = 0\<close>, \<open>oscillate_range = 60\<close>) are reals as
  well; \<open>oscillate_direction\<close>, \<open>blade_count\<close> and \<open>tilt_angle\<close> stay integers.
\<close>

type_synonym vec3 = "real \<times> real \<times> real"

type_synonym rgba = "real \<times> real \<times> real \<times> real"

text \<open>One entry of the \<open>configs\<close> dictionary of \<open>configure_fan\<close>.\<close>

record fan_config =
  cfg_blade_count :: int
  cfg_blade_length :: real
  cfg_blade_width :: real
  cfg_motor_radius :: real
  cfg_has_stand :: bool
  cfg_tilt_angle :: int

text \<open>The attributes of a \<open>Fan3D\<close> object.\<close>

record fan =
  fan_type :: string
  angle :: real
  speed :: real
  max_speed :: real
  is_on :: bool
  oscillate :: bool
  oscillate_angle :: real
  oscillate_direction :: int
  oscillate_range :: real
  blade_count :: int
  lighting_mode :: string
  blade_length :: real
  blade_width :: real
  motor_radius :: real
  has_stand :: bool
  tilt_angle :: int
  acceleration :: real
  deceleration :: real
  target_speed :: real
  current_speed :: real
  blade_color :: rgba
  motor_color :: rgba
  stand_color :: rgba

subsection \<open>configure\_fan\<close>

definition ceiling_config :: fan_config where
  "ceiling_config =
     \<lparr>cfg_blade_count = 3, cfg_blade_length = 15 / 10, cfg_blade_width = 3 / 10,
      cfg_motor_radius = 2 / 10, cfg_has_stand = False, cfg_tilt_angle = 0\<rparr>"

definition table_config :: fan_config where
  "table_config =
     \<lparr>cfg_blade_count = 4, cfg_blade_length = 8 / 10, cfg_blade_width = 2 / 10,
      cfg_motor_radius = 15 / 100, cfg_has_stand = True, cfg_tilt_angle = 15\<rparr>"

definition tower_config :: fan_config where
  "tower_config =
     \<lparr>cfg_blade_count = 20, cfg_blade_length = 3 / 10, cfg_blade_width = 1 / 10,
      cfg_motor_radius = 1 / 10, cfg_has_stand = True, cfg_tilt_angle = 0\<rparr>"

definition industrial_config :: fan_config where
  "industrial_config =
     \<lparr>cfg_blade_count = 5, cfg_blade_length = 2, cfg_blade_width = 4 / 10,
      cfg_motor_radius = 3 / 10, cfg_has_stand = True, cfg_tilt_angle = 0\<rparr>"

definition desk_config :: fan_config where
  "desk_config =
     \<lparr>cfg_blade_count = 3, cfg_blade_length = 5 / 10, cfg_blade_width = 15 / 100,
      cfg_motor_radius = 1 / 10, cfg_has_stand = True, cfg_tilt_angle = 20\<rparr>"

text \<open>The dictionary \<open>configs\<close>, keyed by the fan type.\<close>

definition configs :: "string \<rightharpoonup> fan_config" where
  "configs =
     map_of [(''ceiling'', ceiling_config), (''table'', table_config),
             (''tower'', tower_config), (''industrial'', industrial_config),
             (''desk'', desk_config)]"

text \<open>
  \<open>configs.get(self.fan_type, configs['ceiling'])\<close>: a missing key yields the entry of
  \<open>'ceiling'\<close>; then the six attributes are assigned from the chosen entry.
\<close>

definition configure_fan :: "fan \<Rightarrow> fan" where
  "configure_fan s =
     (let config = (case configs (fan_type s) of
                      Some c \<Rightarrow> c
                    | None \<Rightarrow> ceiling_config)
      in s\<lparr>blade_count := cfg_blade_count config,
            blade_length := cfg_blade_length config,
            blade_width := cfg_blade_width config,
            motor_radius := cfg_motor_radius config,
            has_stand := cfg_has_stand config,
            tilt_angle := cfg_tilt_angle config\<rparr>)"

text \<open>
  The constructor \<open>Fan3D(fan_type)\<close>: the attributes in the order the source assigns
  them, \<open>configure_fan\<close> in between. The three configured lengths do not exist before
  \<open>configure_fan\<close> runs; the record holds 0 there, and \<open>configure_fan\<close> overwrites it.
\<close>

definition Fan3D_init :: "string \<Rightarrow> fan" where
  "Fan3D_init ft =
     (let s0 = \<lparr>fan_type = ft, angle = 0, speed = 2, max_speed = 10, is_on = True,
                oscillate = False, oscillate_angle = 0, oscillate_direction = 1,
                oscillate_range = 60, blade_count = 3, lighting_mode = ''realistic'',
                blade_length = 0, blade_width = 0, motor_radius = 0,
                has_stand = False, tilt_angle = 0,
                acceleration = 0, deceleration = 0, target_speed = 0,
                current_speed = 0,
                blade_color = (0, 0, 0, 0), motor_color = (0, 0, 0, 0),
                stand_color = (0, 0, 0, 0)\<rparr>;
          s1 = configure_fan s0
      in s1\<lparr>acceleration := 1 / 10, deceleration := 5 / 100,
             target_speed := speed s1, current_speed := 0,
             blade_color := (2 / 10, 3 / 10, 5 / 10, 9 / 10),
             motor_color := (3 / 10, 3 / 10, 3 / 10, 1),
             stand_color := (4 / 10, 4 / 10, 4 / 10, 1)\<rparr>)"

subsection \<open>update\_physics\<close>

text \<open>
  Python's \<open>x % m\<close> on floats, for \<open>m \<noteq> 0\<close>: the remainder that has the sign of the
  divisor, \<open>x - m * floor (x / m)\<close>.
\<close>

definition py_fmod :: "real \<Rightarrow> real \<Rightarrow> real" where
  "py_fmod x m = x - m * of_int \<lfloor>x / m\<rfloor>"

text \<open>\<open>np.clip(x, lo, hi)\<close>, which is \<open>minimum(maximum(x, lo), hi)\<close>.\<close>

definition np_clip :: "real \<Rightarrow> real \<Rightarrow> real \<Rightarrow> real" where
  "np_clip x lo hi = min (max x lo) hi"

text \<open>The first block of \<open>update_physics\<close>: the new value of \<open>current_speed\<close>.\<close>

definition update_speed :: "fan \<Rightarrow> fan" where
  "update_speed s =
     (if is_on s then
        (if current_speed s < target_speed s then
           s\<lparr>current_speed := min (target_speed s) (current_speed s + acceleration s)\<rparr>
         else if current_speed s > target_speed s then
           s\<lparr>current_speed := max (target_speed s) (current_speed s - deceleration s)\<rparr>
         else s)
      else s\<lparr>current_speed := max 0 (current_speed s - deceleration s)\<rparr>)"

text \<open>The second block: the blade rotation, with the speed just computed.\<close>

definition update_rotation :: "real \<Rightarrow> fan \<Rightarrow> fan" where
  "update_rotation dt s =
     s\<lparr>angle := py_fmod (angle s + current_speed s * dt * pi) (2 * pi)\<rparr>"

text \<open>The third block: the oscillation of the head.\<close>

definition update_oscillation :: "fan \<Rightarrow> fan" where
  "update_oscillation s =
     (if oscillate s then
        (let s1 = s\<lparr>oscillate_angle :=
                      oscillate_angle s + of_int (oscillate_direction s) * (5 / 10)\<rparr>
         in if \<bar>oscillate_angle s1\<bar> \<ge> oscillate_range s1 / 2 then
              s1\<lparr>oscillate_direction := oscillate_direction s1 * (- 1),
                  oscillate_angle := np_clip (oscillate_angle s1)
                                       (- oscillate_range s1 / 2)
                                       (oscillate_range s1 / 2)\<rparr>
            else s1)
      else s)"

definition update_physics :: "real \<Rightarrow> fan \<Rightarrow> fan" where
  "update_physics dt s = update_oscillation (update_rotation dt (update_speed s))"

text \<open>
  The host calls \<open>update_physics\<close> once per frame. \<open>frames dts s\<close> is the state after
  one call for each element of \<open>dts\<close>, in order, with no input event in between.
\<close>

fun frames :: "real list \<Rightarrow> fan \<Rightarrow> fan" where
  "frames [] s = s"
| "frames (dt # dts) s = frames dts (update_physics dt s)"

section \<open>Geometry generators\<close>

text \<open>
  A mesh is the pair the generators return: the vertex array (one row per vertex) and
  the list of faces, each face a list of indices into the vertex array.
\<close>

type_synonym mesh = "vec3 list \<times> int list list"

text \<open>
  \<open>np.linspace(a, b, n)\<close>: \<open>n\<close> evenly spaced samples \<open>a + k * step\<close> with
  \<open>step = (b - a) / (n - 1)\<close>, the first \<open>a\<close> and, for \<open>n > 1\<close>, the last \<open>b\<close>. The
  program calls it with 32, 16 and 20 samples only.
\<close>

definition np_linspace :: "real \<Rightarrow> real \<Rightarrow> nat \<Rightarrow> real list" where
  "np_linspace a b n = map (\<lambda>k. a + of_nat k * ((b - a) / of_nat (n - 1))) [0..<n]"

subsection \<open>generate\_blade\<close>

text \<open>The local constant \<open>num_segments\<close>.\<close>

definition num_segments :: nat where
  "num_segments = 20"

text \<open>The body of the first loop: the top and bottom point of the profile at sample \<open>i\<close>.\<close>

definition blade_profile_point :: "fan \<Rightarrow> real \<Rightarrow> nat \<Rightarrow> vec3 \<times> vec3" where
  "blade_profile_point s blade_angle i =
     (let t = of_nat i / of_nat num_segments;
          r = motor_radius s + t * blade_length s;
          twist = sin (t * pi) * 15 * pi / 180;
          width = blade_width s * (1 - t * (5 / 10)) * sin (t * pi);
          x1 = r * cos (blade_angle + twist) - width * sin (blade_angle + twist);
          y1 = r * sin (blade_angle + twist) + width * cos (blade_angle + twist);
          z1 = sin (t * pi) * (1 / 10);
          x2 = r * cos (blade_angle + twist) + width * sin (blade_angle + twist);
          y2 = r * sin (blade_angle + twist) - width * cos (blade_angle + twist);
          z2 = - sin (t * pi) * (5 / 100)
      in ((x1, y1, z1), (x2, y2, z2)))"

text \<open>
  The body of the second loop: four vertices are appended and one face over them,
  numbered from the length the vertex list had before.
\<close>

definition blade_quad :: "(vec3 \<times> vec3) list \<Rightarrow> nat \<Rightarrow> mesh \<Rightarrow> mesh" where
  "blade_quad blade_profile i m =
     (let (vertices, faces) = m;
          (v1_top, v1_bot) = blade_profile ! i;
          (v2_top, v2_bot) = blade_profile ! (i + 1);
          idx = int (length vertices)
      in (vertices @ [v1_top, v2_top, v2_bot, v1_bot],
          faces @ [[idx, idx + 1, idx + 2, idx + 3]]))"

text \<open>
  The profile has \<open>num_segments + 1\<close> samples; the mesh loop runs over the
  \<open>num_segments\<close> pairs of neighbouring samples, starting from empty lists.
\<close>

definition generate_blade :: "fan \<Rightarrow> real \<Rightarrow> mesh" where
  "generate_blade s angle_offset =
     (let blade_angle = angle s + angle_offset;
          blade_profile = map (blade_profile_point s blade_angle) [0..<num_segments + 1]
      in fold (blade_quad blade_profile) [0..<num_segments] ([], []))"

subsection \<open>generate\_motor\_housing\<close>

text \<open>
  The face loop shared by the motor housing and the pole of the stand: for each of
  \<open>rows\<close> levels and each \<open>j < n_theta - 1\<close>, the quad over \<open>idx = i * n_theta + j\<close>.
\<close>

definition ring_faces :: "nat \<Rightarrow> nat \<Rightarrow> int list list" where
  "ring_faces rows n_theta =
     concat (map (\<lambda>i. map (\<lambda>j. let idx = int (i * n_theta + j)
                                in [idx, idx + 1, idx + int n_theta + 1, idx + int n_theta])
                         [0..<n_theta - 1])
                 [0..<rows])"

text \<open>
  The local constant \<open>height_segments\<close>, and the height \<open>z\<close> and radius \<open>r\<close> that the
  vertex loop computes at level \<open>i\<close>.
\<close>

definition height_segments :: nat where
  "height_segments = 5"

definition motor_z :: "nat \<Rightarrow> real" where
  "motor_z i = - (2 / 10) + of_nat i * (8 / 100)"

definition motor_r :: "fan \<Rightarrow> nat \<Rightarrow> real" where
  "motor_r s i = motor_radius s * (1 + (1 / 10) * sin (of_nat i * pi / of_nat height_segments))"

text \<open>
  The nested vertex loop appends, level by level, one vertex for each sample of
  \<open>theta\<close>; the face loop runs over \<open>height_segments\<close> levels.
\<close>

definition generate_motor_housing :: "fan \<Rightarrow> mesh" where
  "generate_motor_housing s =
     (let theta = np_linspace 0 (2 * pi) 32;
          vertices = concat (map (\<lambda>i. map (\<lambda>t. (motor_r s i * cos t, motor_r s i * sin t, motor_z i))
                                          theta)
                                 [0..<height_segments + 1]);
          n_theta = length theta
      in (vertices, ring_faces height_segments n_theta))"

subsection \<open>generate\_stand\<close>

text \<open>
  Without a stand the empty mesh is returned at once. Otherwise the pole has one ring
  of vertices for each of 20 heights, the base two vertices for each sample of \<open>theta\<close>
  (appended after the pole, and used by no face), and the faces join 19 pairs of
  neighbouring pole rings.
\<close>

definition generate_stand :: "fan \<Rightarrow> mesh" where
  "generate_stand s =
     (if \<not> has_stand s then ([], [])
      else
        (let theta = np_linspace 0 (2 * pi) 16;
             pole_height = (if fan_type s = ''tower'' then 25 / 10 else 15 / 10);
             pole_radius = 5 / 100;
             pole = concat (map (\<lambda>z. let r = pole_radius *
                                            (1 + (2 / 10) * (1 - \<bar>z + pole_height / 2\<bar> / (pole_height / 2)))
                                       in map (\<lambda>t. (r * cos t, r * sin t, z)) theta)
                                (np_linspace (- pole_height) (- (2 / 10)) 20));
             base_radius = 3 / 10;
             base = concat (map (\<lambda>t. let x = base_radius * cos t;
                                          y = base_radius * sin t
                                      in [(x, y, - pole_height),
                                          (x * (9 / 10), y * (9 / 10), - pole_height + 5 / 100)])
                                theta);
             n_theta = length theta
         in (pole @ base, ring_faces 19 n_theta)))"

subsection \<open>generate\_safety\_cage\<close>

text \<open>
  The front and the rear grid are built by the same loop at two heights; each face
  joins two neighbouring points of a front ring to the same two of the rear ring.
\<close>

definition generate_safety_cage :: "fan \<Rightarrow> mesh" where
  "generate_safety_cage s =
     (let n_rings = 8;
          n_spokes = 16;
          theta = np_linspace 0 (2 * pi) n_spokes;
          cage_radius = blade_length s + 2 / 10;
          ring = (\<lambda>z. concat (map (\<lambda>i. let r = cage_radius * (of_nat i + 1) / of_nat n_rings
                                       in map (\<lambda>t. (r * cos t, r * sin t, z)) theta)
                                  [0..<n_rings]));
          front = ring (5 / 100);
          rear = ring (- (15 / 100));
          faces = concat (map (\<lambda>i. map (\<lambda>j. let idx_front = int (j * n_spokes + i);
                                                 idx_back = int ((n_rings + j) * n_spokes + i)
                                             in [idx_front, idx_front + 1, idx_back + 1, idx_back])
                                        [0..<n_rings - 1])
                              [0..<n_spokes - 1])
      in (front @ rear, faces))"

section \<open>Shading\<close>

datatype py_error = IndexError

text \<open>
  \<open>xs[i]\<close> for a Python int \<open>i\<close>: a negative index counts from the end, an index out of
  range raises.
\<close>

definition py_index :: "'a list \<Rightarrow> int \<Rightarrow> py_error + 'a" where
  "py_index xs i =
     (if 0 \<le> i \<and> i < int (length xs) then Inr (xs ! nat i)
      else if i < 0 \<and> - int (length xs) \<le> i then Inr (xs ! nat (int (length xs) + i))
      else Inl IndexError)"

definition np_sub :: "vec3 \<Rightarrow> vec3 \<Rightarrow> vec3" where
  "np_sub u v = (case u of (a, b, c) \<Rightarrow> case v of (d, e, f) \<Rightarrow> (a - d, b - e, c - f))"

definition np_cross :: "vec3 \<Rightarrow> vec3 \<Rightarrow> vec3" where
  "np_cross u v =
     (case u of (a, b, c) \<Rightarrow> case v of (d, e, f) \<Rightarrow>
        (b * f - c * e, c * d - a * f, a * e - b * d))"

definition np_dot :: "vec3 \<Rightarrow> vec3 \<Rightarrow> real" where
  "np_dot u v = (case u of (a, b, c) \<Rightarrow> case v of (d, e, f) \<Rightarrow> a * d + b * e + c * f)"

definition np_norm :: "vec3 \<Rightarrow> real" where
  "np_norm u = (case u of (a, b, c) \<Rightarrow> sqrt (a * a + b * b + c * c))"

definition np_div :: "vec3 \<Rightarrow> real \<Rightarrow> vec3" where
  "np_div u k = (case u of (a, b, c) \<Rightarrow> (a / k, b / k, c / k))"

definition light_dir :: vec3 where
  "light_dir = np_div (5 / 10, 5 / 10, 1) (np_norm (5 / 10, 5 / 10, 1))"

text \<open>The normal of a face from its first three vertices.\<close>

definition face_normal :: "vec3 \<Rightarrow> vec3 \<Rightarrow> vec3 \<Rightarrow> vec3" where
  "face_normal v0 v1 v2 =
     (let edge1 = np_sub v1 v0;
          edge2 = np_sub v2 v0;
          normal = np_cross edge1 edge2
      in if np_norm normal > 0 then np_div normal (np_norm normal) else (0, 0, 1))"

text \<open>The lighting calculation for one normal, up to and including the clip.\<close>

definition face_intensity :: "string \<Rightarrow> vec3 \<Rightarrow> real" where
  "face_intensity mode normal =
     np_clip
       (if mode = ''realistic'' then
          (let diffuse = max 0 (np_dot normal light_dir);
               ambient = 3 / 10;
               specular = (max 0 (np_dot normal light_dir)) ^ 3 * (5 / 10)
           in ambient + diffuse * (7 / 10) + specular)
        else if mode = ''flat'' then 1
        else
          (let diffuse = max 0 (np_dot normal light_dir)
           in 2 / 10 + diffuse * (8 / 10)))
       0 1"

definition face_color :: "rgba \<Rightarrow> real \<Rightarrow> rgba" where
  "face_color color intensity =
     (case color of (c0, c1, c2, c3) \<Rightarrow> (c0 * intensity, c1 * intensity, c2 * intensity, c3))"

text \<open>
  The loop over the faces. A face of fewer than three indices is skipped; reading a
  vertex may raise, which ends the call.
\<close>

fun shade_faces :: "string \<Rightarrow> vec3 list \<Rightarrow> rgba \<Rightarrow> int list list \<Rightarrow> py_error + rgba list" where
  "shade_faces mode vertices color [] = Inr []"
| "shade_faces mode vertices color (face # faces) =
     (if length face < 3 then shade_faces mode vertices color faces
      else
        (case py_index vertices (face ! 0) of
           Inl e \<Rightarrow> Inl e
         | Inr v0 \<Rightarrow>
             (case py_index vertices (face ! 1) of
                Inl e \<Rightarrow> Inl e
              | Inr v1 \<Rightarrow>
                  (case py_index vertices (face ! 2) of
                     Inl e \<Rightarrow> Inl e
                   | Inr v2 \<Rightarrow>
                       (case shade_faces mode vertices color faces of
                          Inl e \<Rightarrow> Inl e
                        | Inr face_colors \<Rightarrow>
                            Inr (face_color color
                                   (face_intensity mode (face_normal v0 v1 v2))
                                 # face_colors))))))"

definition apply_lighting :: "fan \<Rightarrow> vec3 list \<Rightarrow> int list list \<Rightarrow> rgba \<Rightarrow> py_error + rgba list" where
  "apply_lighting s vertices faces color =
     (if length vertices = 0 \<or> length faces = 0 then Inr []
      else shade_faces (lighting_mode s) vertices color faces)"

section \<open>Theorems\<close>

subsection \<open>Speed, rotation and oscillation\<close>

lemma update_physics_target [simp]: "target_speed (update_physics dt s) = target_speed s"
  by (simp add: update_physics_def update_oscillation_def update_rotation_def update_speed_def Let_def)

lemma update_physics_is_on [simp]: "is_on (update_physics dt s) = is_on s"
  by (simp add: update_physics_def update_oscillation_def update_rotation_def update_speed_def Let_def)

lemma update_physics_accel [simp]: "acceleration (update_physics dt s) = acceleration s"
  by (simp add: update_physics_def update_oscillation_def update_rotation_def update_speed_def Let_def)

lemma update_physics_decel [simp]: "deceleration (update_physics dt s) = deceleration s"
  by (simp add: update_physics_def update_oscillation_def update_rotation_def update_speed_def Let_def)

lemma update_physics_speed: "current_speed (update_physics dt s) = current_speed (update_speed s)"
  by (simp add: update_physics_def update_oscillation_def update_rotation_def Let_def)

lemma frames_append: "frames (xs @ ys) s = frames ys (frames xs s)"
  by (induction xs arbitrary: s) auto

lemma frames_snoc: "frames (dts @ [dt]) s = update_physics dt (frames dts s)"
  by (simp add: frames_append)

lemma frames_keep:
  "target_speed (frames dts s) = target_speed s \<and> is_on (frames dts s) = is_on s
   \<and> acceleration (frames dts s) = acceleration s \<and> deceleration (frames dts s) = deceleration s"
  by (induction dts arbitrary: s) auto

lemma speed_up_closed:
  assumes "is_on s" "acceleration s = 1/10" "current_speed s \<le> target_speed s"
  shows "current_speed (frames dts s) = min (target_speed s) (current_speed s + of_nat (length dts) / 10)"
  using assms
proof (induction dts arbitrary: s)
  case Nil
  then show ?case by simp
next
  case (Cons dt dts)
  let ?s' = "update_physics dt s"
  have cs: "current_speed ?s' = min (target_speed s) (current_speed s + 1/10)"
    using Cons.prems by (auto simp: update_physics_speed update_speed_def)
  have "current_speed (frames dts ?s') = min (target_speed ?s') (current_speed ?s' + of_nat (length dts) / 10)"
    by (rule Cons.IH) (use Cons.prems cs in auto)
  moreover have "0 \<le> real (length dts) / 10" by simp
  ultimately show ?case using cs by (auto simp: min_def add_divide_distrib)
qed

lemma slow_down_closed:
  assumes "is_on s" "deceleration s = 1/20" "target_speed s \<le> current_speed s"
  shows "current_speed (frames dts s) = max (target_speed s) (current_speed s - of_nat (length dts) / 20)"
  using assms
proof (induction dts arbitrary: s)
  case Nil
  then show ?case by simp
next
  case (Cons dt dts)
  let ?s' = "update_physics dt s"
  have cs: "current_speed ?s' = max (target_speed s) (current_speed s - 1/20)"
    using Cons.prems by (auto simp: update_physics_speed update_speed_def)
  have "current_speed (frames dts ?s') = max (target_speed ?s') (current_speed ?s' - of_nat (length dts) / 20)"
    by (rule Cons.IH) (use Cons.prems cs in auto)
  moreover have "0 \<le> real (length dts) / 20" by simp
  ultimately show ?case using cs by (auto simp: max_def add_divide_distrib)
qed

lemma off_closed:
  assumes "\<not> is_on s" "deceleration s = 1/20" "0 \<le> current_speed s"
  shows "current_speed (frames dts s) = max 0 (current_speed s - of_nat (length dts) / 20)"
  using assms
proof (induction dts arbitrary: s)
  case Nil
  then show ?case by simp
next
  case (Cons dt dts)
  let ?s' = "update_physics dt s"
  have cs: "current_speed ?s' = max 0 (current_speed s - 1/20)"
    using Cons.prems by (auto simp: update_physics_speed update_speed_def)
  have "current_speed (frames dts ?s') = max 0 (current_speed ?s' - of_nat (length dts) / 20)"
    by (rule Cons.IH) (use Cons.prems cs in auto)
  moreover have "0 \<le> real (length dts) / 20" by simp
  ultimately show ?case using cs by (auto simp: max_def add_divide_distrib)
qed


lemma settle_up:
  fixes c T :: real
  assumes "c \<le> T"
  shows "\<exists>N::nat. \<forall>n\<ge>N. min T (c + of_nat n / 10) = T"
proof -
  obtain N :: nat where N: "10 * (T - c) \<le> of_nat N"
    using real_arch_simple by blast
  have "min T (c + of_nat n / 10) = T" if "N \<le> n" for n
  proof -
    have "of_nat N \<le> (of_nat n :: real)" using that by simp
    with N have "T \<le> c + of_nat n / 10" by simp
    then show ?thesis by simp
  qed
  then show ?thesis by blast
qed

lemma settle_down:
  fixes c T :: real
  assumes "T \<le> c"
  shows "\<exists>N::nat. \<forall>n\<ge>N. max T (c - of_nat n / 20) = T"
proof -
  obtain N :: nat where N: "20 * (c - T) \<le> of_nat N"
    using real_arch_simple by blast
  have "max T (c - of_nat n / 20) = T" if "N \<le> n" for n
  proof -
    have "of_nat N \<le> (of_nat n :: real)" using that by simp
    with N have "c - of_nat n / 20 \<le> T" by simp
    then show ?thesis by simp
  qed
  then show ?thesis by blast
qed

text \<open>
  Claim C1. In a state that is switched on, with the constructor's acceleration 0.1 and
  deceleration 0.05: after any sequence of calls the target is unchanged and the next
  call adds 0.1 to a speed below the target, or takes 0.05 from a speed above it,
  stopping at the target. From below, the speed after \<open>n\<close> calls is
  \<open>min target (speed + n / 10)\<close>, it never decreases and never passes the target; from
  above it is \<open>max target (speed - n / 20)\<close>, it never increases and never falls under
  the target. After some number of calls the speed is the target and stays there.
\<close>

theorem speed_converges_to_target:
  assumes on: "is_on s" and acc: "acceleration s = 1 / 10" and dec: "deceleration s = 1 / 20"
  shows "(let s' = frames dts s; c = current_speed s'; T = target_speed s
          in target_speed s' = T
             \<and> current_speed (update_physics dt s') =
                 (if c < T then min T (c + 1 / 10)
                  else if c > T then max T (c - 1 / 20) else T))
         \<and> (current_speed s \<le> target_speed s \<longrightarrow>
              current_speed (frames dts s) =
                min (target_speed s) (current_speed s + of_nat (length dts) / 10)
              \<and> current_speed (frames dts s) \<le> current_speed (frames (dts @ [dt]) s)
              \<and> current_speed (frames (dts @ [dt]) s) \<le> target_speed s)
         \<and> (target_speed s \<le> current_speed s \<longrightarrow>
              current_speed (frames dts s) =
                max (target_speed s) (current_speed s - of_nat (length dts) / 20)
              \<and> current_speed (frames (dts @ [dt]) s) \<le> current_speed (frames dts s)
              \<and> target_speed s \<le> current_speed (frames (dts @ [dt]) s))
         \<and> (\<exists>N. \<forall>ds. N \<le> length ds \<longrightarrow> current_speed (frames ds s) = target_speed s)"
proof -
  let ?T = "target_speed s"
  let ?s' = "frames dts s"
  have keep: "target_speed ?s' = ?T" "is_on ?s'" "acceleration ?s' = 1 / 10"
    "deceleration ?s' = 1 / 20"
    using frames_keep [of dts s] on acc dec by simp_all
  have step: "current_speed (update_physics dt ?s') =
      (if current_speed ?s' < ?T then min ?T (current_speed ?s' + 1 / 10)
       else if current_speed ?s' > ?T then max ?T (current_speed ?s' - 1 / 20) else ?T)"
    using keep by (auto simp: update_physics_speed update_speed_def)
  have first: "let s' = frames dts s; c = current_speed s'; T = target_speed s
          in target_speed s' = T
             \<and> current_speed (update_physics dt s') =
                 (if c < T then min T (c + 1 / 10)
                  else if c > T then max T (c - 1 / 20) else T)"
    using keep(1) step by (simp add: Let_def)
  have up: "current_speed (frames dts s) = min ?T (current_speed s + of_nat (length dts) / 10)
              \<and> current_speed (frames dts s) \<le> current_speed (frames (dts @ [dt]) s)
              \<and> current_speed (frames (dts @ [dt]) s) \<le> ?T"
    if le: "current_speed s \<le> ?T"
  proof -
    have a: "current_speed (frames ds s) = min ?T (current_speed s + of_nat (length ds) / 10)" for ds
      using speed_up_closed [OF on acc le] .
    show ?thesis unfolding a [of dts] a [of "dts @ [dt]"]
      by (auto simp: min_def add_divide_distrib)
  qed
  have down: "current_speed (frames dts s) = max ?T (current_speed s - of_nat (length dts) / 20)
              \<and> current_speed (frames (dts @ [dt]) s) \<le> current_speed (frames dts s)
              \<and> ?T \<le> current_speed (frames (dts @ [dt]) s)"
    if ge: "?T \<le> current_speed s"
  proof -
    have a: "current_speed (frames ds s) = max ?T (current_speed s - of_nat (length ds) / 20)" for ds
      using slow_down_closed [OF on dec ge] .
    show ?thesis unfolding a [of dts] a [of "dts @ [dt]"]
      by (auto simp: max_def add_divide_distrib)
  qed
  have conv: "\<exists>N. \<forall>ds. N \<le> length ds \<longrightarrow> current_speed (frames ds s) = ?T"
  proof (cases "current_speed s \<le> ?T")
    case True
    from settle_up [OF True] obtain N :: nat
      where "\<forall>n\<ge>N. min ?T (current_speed s + of_nat n / 10) = ?T" by blast
    then show ?thesis using speed_up_closed [OF on acc True] by auto
  next
    case False
    then have ge: "?T \<le> current_speed s" by simp
    from settle_down [OF ge] obtain N :: nat
      where "\<forall>n\<ge>N. max ?T (current_speed s - of_nat n / 20) = ?T" by blast
    then show ?thesis using slow_down_closed [OF on dec ge] by auto
  qed
  from first up down conv show ?thesis by blast
qed


lemma init_table_fields:
  "is_on (Fan3D_init ''table'')" "acceleration (Fan3D_init ''table'') = 1 / 10"
  "deceleration (Fan3D_init ''table'') = 1 / 20" "current_speed (Fan3D_init ''table'') = 0"
  "target_speed (Fan3D_init ''table'') = 2" "\<not> oscillate (Fan3D_init ''table'')"
  "oscillate_angle (Fan3D_init ''table'') = 0" "oscillate_direction (Fan3D_init ''table'') = 1"
  "oscillate_range (Fan3D_init ''table'') = 60"
  by (simp_all add: Fan3D_init_def configure_fan_def Let_def)

theorem speed_converges_to_target_witness:
  "is_on (Fan3D_init ''table'') \<and> acceleration (Fan3D_init ''table'') = 1 / 10
   \<and> deceleration (Fan3D_init ''table'') = 1 / 20
   \<and> current_speed (update_physics (16 / 1000) (Fan3D_init ''table'')) = 1 / 10
   \<and> current_speed (frames (replicate 100 (16 / 1000)) (Fan3D_init ''table'')) = 2"
  using speed_converges_to_target [of "Fan3D_init ''table''" "[]" "16 / 1000"]
    speed_converges_to_target [of "Fan3D_init ''table''" "replicate 100 (16 / 1000)" "16 / 1000"]
  by (simp add: init_table_fields Let_def)

text \<open>
  The speed is never negative in a state the program reaches: it starts at 0, the key
  handlers keep the target in \<open>[0, max_speed]\<close>, and a call of \<open>update_physics\<close> keeps a
  speed that is not negative so.
\<close>

lemma speed_stays_nonneg:
  assumes "0 \<le> current_speed s" "0 \<le> target_speed s" "0 \<le> acceleration s"
  shows "0 \<le> current_speed (update_physics dt s)"
  using assms by (auto simp: update_physics_speed update_speed_def min_def max_def)

text \<open>
  Claim C5. In a state that is switched off, with deceleration 0.05 and a speed that is
  not negative, whatever the target speed: each call takes 0.05 from the speed, down to
  0, so the speed never increases; after \<open>n\<close> calls it is \<open>max 0 (speed - n / 20)\<close>; and
  after some number of calls it is 0 and stays 0.
\<close>

theorem off_speed_decays:
  assumes off: "\<not> is_on s" and dec: "deceleration s = 1 / 20" and nonneg: "0 \<le> current_speed s"
  shows "current_speed (update_physics dt (frames dts s)) =
           max 0 (current_speed (frames dts s) - 1 / 20)
         \<and> current_speed (update_physics dt (frames dts s)) \<le> current_speed (frames dts s)
         \<and> 0 \<le> current_speed (frames dts s)
         \<and> current_speed (frames dts s) = max 0 (current_speed s - of_nat (length dts) / 20)
         \<and> (\<exists>N. \<forall>ds. N \<le> length ds \<longrightarrow> current_speed (frames ds s) = 0)"
proof -
  let ?s' = "frames dts s"
  have closed: "current_speed (frames ds s) = max 0 (current_speed s - of_nat (length ds) / 20)" for ds
    using off_closed [OF off dec nonneg] .
  have keep: "\<not> is_on ?s'" "deceleration ?s' = 1 / 20"
    using frames_keep [of dts s] off dec by simp_all
  have pos: "0 \<le> current_speed ?s'"
    unfolding closed [of dts] by simp
  have step: "current_speed (update_physics dt ?s') = max 0 (current_speed ?s' - 1 / 20)"
    using keep by (simp add: update_physics_speed update_speed_def)
  have le: "current_speed (update_physics dt ?s') \<le> current_speed ?s'"
    unfolding step using pos by simp
  have fin: "\<exists>N. \<forall>ds. N \<le> length ds \<longrightarrow> current_speed (frames ds s) = 0"
  proof -
    from settle_down [OF nonneg] obtain N :: nat
      where "\<forall>n\<ge>N. max 0 (current_speed s - of_nat n / 20) = 0" by blast
    then show ?thesis using closed by auto
  qed
  from step le pos closed [of dts] fin show ?thesis by blast
qed

lemma off_state_fields:
  "\<not> is_on ((Fan3D_init ''table'')\<lparr>is_on := False, target_speed := 7, current_speed := 1 / 10\<rparr>)"
  "deceleration ((Fan3D_init ''table'')\<lparr>is_on := False, target_speed := 7, current_speed := 1 / 10\<rparr>) = 1 / 20"
  "current_speed ((Fan3D_init ''table'')\<lparr>is_on := False, target_speed := 7, current_speed := 1 / 10\<rparr>) = 1 / 10"
  by (simp_all add: init_table_fields)

theorem off_speed_decays_witness:
  "\<not> is_on ((Fan3D_init ''table'')\<lparr>is_on := False, target_speed := 7, current_speed := 1 / 10\<rparr>)
   \<and> deceleration ((Fan3D_init ''table'')\<lparr>is_on := False, target_speed := 7, current_speed := 1 / 10\<rparr>) = 1 / 20
   \<and> (0::real) \<le> current_speed ((Fan3D_init ''table'')\<lparr>is_on := False, target_speed := 7, current_speed := 1 / 10\<rparr>)
   \<and> current_speed (frames [16 / 1000]
        ((Fan3D_init ''table'')\<lparr>is_on := False, target_speed := 7, current_speed := 1 / 10\<rparr>)) = 1 / 20
   \<and> current_speed (frames [16 / 1000, 16 / 1000, 16 / 1000]
        ((Fan3D_init ''table'')\<lparr>is_on := False, target_speed := 7, current_speed := 1 / 10\<rparr>)) = 0"
  using off_speed_decays [of "(Fan3D_init ''table'')\<lparr>is_on := False, target_speed := 7, current_speed := 1 / 10\<rparr>"
      "16 / 1000" "[16 / 1000]"]
    off_speed_decays [of "(Fan3D_init ''table'')\<lparr>is_on := False, target_speed := 7, current_speed := 1 / 10\<rparr>"
      "16 / 1000" "[16 / 1000, 16 / 1000, 16 / 1000]"]
  by (simp add: off_state_fields del: frames.simps)

lemma py_fmod_range:
  assumes "0 < m"
  shows "0 \<le> py_fmod x m \<and> py_fmod x m < m"
proof -
  let ?k = "of_int \<lfloor>x / m\<rfloor> :: real"
  have "?k \<le> x / m" by simp
  then have "?k * m \<le> x"
    using assms by (simp only: pos_le_divide_eq)
  then have a: "m * ?k \<le> x" by (simp add: mult.commute)
  have "x / m < ?k + 1" by linarith
  then have "x < (?k + 1) * m"
    using assms by (simp only: pos_divide_less_eq)
  then have b: "x < m * ?k + m" by (simp add: algebra_simps)
  from a b show ?thesis by (simp add: py_fmod_def)
qed

lemma update_physics_angle:
  "angle (update_physics dt s) =
     py_fmod (angle s + current_speed (update_speed s) * dt * pi) (2 * pi)"
  by (simp add: update_physics_def update_oscillation_def update_rotation_def
      update_speed_def Let_def)

text \<open>
  Claim C2. After a call of \<open>update_physics\<close>, for any time step and from any state, the
  rotation angle is at least 0 and below \<open>2 * pi\<close>; so it is after any positive number
  of calls, and after any number of calls on a freshly constructed fan.
\<close>

theorem angle_wrapped:
  "(0 \<le> angle (update_physics dt s) \<and> angle (update_physics dt s) < 2 * pi)
   \<and> (0 \<le> angle (frames (dts @ [dt]) s) \<and> angle (frames (dts @ [dt]) s) < 2 * pi)
   \<and> (0 \<le> angle (frames dts (Fan3D_init ft)) \<and> angle (frames dts (Fan3D_init ft)) < 2 * pi)"
proof -
  have one: "0 \<le> angle (update_physics d t) \<and> angle (update_physics d t) < 2 * pi" for d t
    unfolding update_physics_angle by (rule py_fmod_range) simp
  have two: "0 \<le> angle (frames (dts @ [dt]) s) \<and> angle (frames (dts @ [dt]) s) < 2 * pi"
    unfolding frames_snoc by (rule one)
  have three: "0 \<le> angle (frames dts (Fan3D_init ft)) \<and> angle (frames dts (Fan3D_init ft)) < 2 * pi"
  proof (cases dts rule: rev_cases)
    case Nil
    then show ?thesis by (simp add: Fan3D_init_def configure_fan_def Let_def)
  next
    case (snoc ds d)
    then show ?thesis unfolding snoc frames_snoc using one by blast
  qed
  from one two three show ?thesis by blast
qed

subsection \<open>Archetype fallback\<close>

lemma configs_unknown:
  "ft \<notin> {''ceiling'', ''table'', ''tower'', ''industrial'', ''desk''} \<Longrightarrow> configs ft = None"
  by (simp add: configs_def)

lemma configs_ceiling: "configs ''ceiling'' = Some ceiling_config"
  by (simp add: configs_def)

lemma update_physics_osc:
  "oscillate (update_physics dt s) = oscillate s
   \<and> oscillate_range (update_physics dt s) = oscillate_range s"
  by (simp add: update_physics_def update_oscillation_def update_rotation_def
      update_speed_def Let_def)

lemma update_physics_osc_step:
  assumes "oscillate s"
  shows "oscillate_angle (update_physics dt s) =
           (let a = oscillate_angle s + of_int (oscillate_direction s) * (1 / 2)
            in if oscillate_range s / 2 \<le> \<bar>a\<bar>
               then np_clip a (- oscillate_range s / 2) (oscillate_range s / 2) else a)"
    and "oscillate_direction (update_physics dt s) =
           (let a = oscillate_angle s + of_int (oscillate_direction s) * (1 / 2)
            in if oscillate_range s / 2 \<le> \<bar>a\<bar>
               then - oscillate_direction s else oscillate_direction s)"
  using assms
  by (simp_all add: update_physics_def update_oscillation_def update_rotation_def
      update_speed_def Let_def)

lemma np_clip_abs: "0 \<le> h \<Longrightarrow> \<bar>np_clip a (- h) h\<bar> \<le> h"
  by (simp add: np_clip_def min_def max_def abs_if)

lemma np_clip_boundary:
  "0 \<le> h \<Longrightarrow> h \<le> \<bar>a\<bar> \<Longrightarrow> np_clip a (- h) h = (if 0 \<le> a then h else - h)"
  by (auto simp: np_clip_def min_def max_def abs_if split: if_splits)

lemma osc_inv_step:
  assumes "oscillate s" "\<bar>oscillate_angle s\<bar> \<le> oscillate_range s / 2"
    "oscillate_direction s = 1 \<or> oscillate_direction s = - 1"
  shows "oscillate (update_physics dt s)
     \<and> \<bar>oscillate_angle (update_physics dt s)\<bar> \<le> oscillate_range (update_physics dt s) / 2
     \<and> (oscillate_direction (update_physics dt s) = 1
        \<or> oscillate_direction (update_physics dt s) = - 1)"
proof -
  have h: "0 \<le> oscillate_range s / 2" using assms(2) by linarith
  have "\<bar>oscillate_angle (update_physics dt s)\<bar> \<le> oscillate_range s / 2"
    using np_clip_abs [OF h] assms(1)
    by (simp add: update_physics_osc_step Let_def)
  moreover have "oscillate_direction (update_physics dt s) = 1
        \<or> oscillate_direction (update_physics dt s) = - 1"
    using assms(1,3) by (auto simp: update_physics_osc_step Let_def)
  ultimately show ?thesis using assms(1) by (simp add: update_physics_osc)
qed

lemma osc_inv_frames:
  assumes "oscillate s" "\<bar>oscillate_angle s\<bar> \<le> oscillate_range s / 2"
    "oscillate_direction s = 1 \<or> oscillate_direction s = - 1"
  shows "oscillate (frames dts s)
     \<and> \<bar>oscillate_angle (frames dts s)\<bar> \<le> oscillate_range (frames dts s) / 2
     \<and> (oscillate_direction (frames dts s) = 1 \<or> oscillate_direction (frames dts s) = - 1)"
  using assms
proof (induction dts arbitrary: s)
  case Nil
  then show ?case by simp
next
  case (Cons dt dts)
  from osc_inv_step [OF Cons.prems, of dt] show ?case
    using Cons.IH [of "update_physics dt s"] by simp
qed

lemma frames_osc_range: "oscillate_range (frames dts s) = oscillate_range s"
  by (induction dts arbitrary: s) (auto simp: update_physics_osc)

text \<open>
  Claim C3. With oscillation enabled, from an oscillation angle within half the range on
  either side of 0 and a direction of 1 or -1: after any sequence of calls the angle is
  still within half the range and the direction still 1 or -1. The next call moves the
  angle by half a degree in the current direction; if the moved angle reaches or passes
  half the range in magnitude, the direction is negated and the angle is set to the
  boundary on that side, otherwise both are as moved. The direction changes exactly in
  the calls where the boundary is reached.
\<close>

theorem oscillation_bounded:
  assumes osc: "oscillate s"
    and rng: "\<bar>oscillate_angle s\<bar> \<le> oscillate_range s / 2"
    and dir: "oscillate_direction s = 1 \<or> oscillate_direction s = - 1"
  shows "(let s' = frames dts s;
              s'' = update_physics dt s';
              h = oscillate_range s / 2;
              a = oscillate_angle s' + of_int (oscillate_direction s') * (1 / 2)
          in \<bar>oscillate_angle s'\<bar> \<le> h
             \<and> (oscillate_direction s' = 1 \<or> oscillate_direction s' = - 1)
             \<and> \<bar>oscillate_angle s''\<bar> \<le> h
             \<and> (if h \<le> \<bar>a\<bar>
                 then oscillate_direction s'' = - oscillate_direction s'
                      \<and> oscillate_angle s'' = (if 0 \<le> a then h else - h)
                 else oscillate_direction s'' = oscillate_direction s'
                      \<and> oscillate_angle s'' = a)
             \<and> (oscillate_direction s'' \<noteq> oscillate_direction s' \<longleftrightarrow> h \<le> \<bar>a\<bar>))"
proof -
  let ?s' = "frames dts s"
  let ?s'' = "update_physics dt ?s'"
  let ?h = "oscillate_range s / 2"
  let ?a = "oscillate_angle ?s' + of_int (oscillate_direction ?s') * (1 / 2)"
  have r: "oscillate_range ?s' = oscillate_range s" by (rule frames_osc_range)
  from osc_inv_frames [OF osc rng dir, of dts]
  have inv: "oscillate ?s'" "\<bar>oscillate_angle ?s'\<bar> \<le> ?h"
    "oscillate_direction ?s' = 1 \<or> oscillate_direction ?s' = - 1"
    by (simp_all add: r)
  have h: "0 \<le> ?h" using inv(2) by linarith
  from osc_inv_step [of ?s' dt] inv
  have nxt: "\<bar>oscillate_angle ?s''\<bar> \<le> ?h"
    by (simp add: r update_physics_osc)
  have flip: "oscillate_direction ?s'' = - oscillate_direction ?s'
        \<and> oscillate_angle ?s'' = (if 0 \<le> ?a then ?h else - ?h)" if "?h \<le> \<bar>?a\<bar>"
    using that inv(1) np_clip_boundary [OF h that]
    by (simp add: update_physics_osc_step Let_def r)
  have keep: "oscillate_direction ?s'' = oscillate_direction ?s' \<and> oscillate_angle ?s'' = ?a"
    if "\<not> ?h \<le> \<bar>?a\<bar>"
    using that inv(1) by (simp add: update_physics_osc_step Let_def r)
  have iff: "oscillate_direction ?s'' \<noteq> oscillate_direction ?s' \<longleftrightarrow> ?h \<le> \<bar>?a\<bar>"
    using flip keep inv(3) by (cases "?h \<le> \<bar>?a\<bar>") auto
  show ?thesis
    unfolding Let_def using inv(2,3) nxt flip keep iff by presburger
qed


lemma osc_state_fields:
  "oscillate ((Fan3D_init ''table'')\<lparr>oscillate := True, oscillate_angle := 59 / 2\<rparr>)"
  "oscillate_angle ((Fan3D_init ''table'')\<lparr>oscillate := True, oscillate_angle := 59 / 2\<rparr>) = 59 / 2"
  "oscillate_direction ((Fan3D_init ''table'')\<lparr>oscillate := True, oscillate_angle := 59 / 2\<rparr>) = 1"
  "oscillate_range ((Fan3D_init ''table'')\<lparr>oscillate := True, oscillate_angle := 59 / 2\<rparr>) = 60"
  by (simp_all add: Fan3D_init_def configure_fan_def Let_def)

theorem oscillation_bounded_witness:
  "oscillate ((Fan3D_init ''table'')\<lparr>oscillate := True, oscillate_angle := 59 / 2\<rparr>)
   \<and> \<bar>oscillate_angle ((Fan3D_init ''table'')\<lparr>oscillate := True, oscillate_angle := 59 / 2\<rparr>)\<bar>
       \<le> oscillate_range ((Fan3D_init ''table'')\<lparr>oscillate := True, oscillate_angle := 59 / 2\<rparr>) / 2
   \<and> oscillate_direction ((Fan3D_init ''table'')\<lparr>oscillate := True, oscillate_angle := 59 / 2\<rparr>) = 1
   \<and> oscillate_angle (update_physics (16 / 1000)
         ((Fan3D_init ''table'')\<lparr>oscillate := True, oscillate_angle := 59 / 2\<rparr>)) = 30
   \<and> oscillate_direction (update_physics (16 / 1000)
         ((Fan3D_init ''table'')\<lparr>oscillate := True, oscillate_angle := 59 / 2\<rparr>)) = - 1"
  using oscillation_bounded
    [of "(Fan3D_init ''table'')\<lparr>oscillate := True, oscillate_angle := 59 / 2\<rparr>" "[]" "16 / 1000"]
  by (simp add: osc_state_fields Let_def)

text \<open>
  Claim C10. A call of \<open>update_physics\<close> changes at most \<open>current_speed\<close>, \<open>angle\<close>,
  \<open>oscillate_angle\<close> and \<open>oscillate_direction\<close>: the result is the old state with these
  four attributes replaced, so the target and maximum speed, the switches, the lighting
  mode and all configured attributes are as before; with oscillation disabled the
  oscillation angle and direction are as before too.
\<close>

theorem update_physics_frame:
  "update_physics dt s =
     s\<lparr>current_speed := current_speed (update_physics dt s),
       angle := angle (update_physics dt s),
       oscillate_angle := oscillate_angle (update_physics dt s),
       oscillate_direction := oscillate_direction (update_physics dt s)\<rparr>
   \<and> target_speed (update_physics dt s) = target_speed s
   \<and> max_speed (update_physics dt s) = max_speed s
   \<and> is_on (update_physics dt s) = is_on s
   \<and> oscillate (update_physics dt s) = oscillate s
   \<and> lighting_mode (update_physics dt s) = lighting_mode s
   \<and> blade_count (update_physics dt s) = blade_count s
   \<and> blade_length (update_physics dt s) = blade_length s
   \<and> blade_width (update_physics dt s) = blade_width s
   \<and> motor_radius (update_physics dt s) = motor_radius s
   \<and> has_stand (update_physics dt s) = has_stand s
   \<and> tilt_angle (update_physics dt s) = tilt_angle s
   \<and> fan_type (update_physics dt s) = fan_type s
   \<and> oscillate_range (update_physics dt s) = oscillate_range s
   \<and> acceleration (update_physics dt s) = acceleration s
   \<and> deceleration (update_physics dt s) = deceleration s
   \<and> (\<not> oscillate s \<longrightarrow>
        oscillate_angle (update_physics dt s) = oscillate_angle s
        \<and> oscillate_direction (update_physics dt s) = oscillate_direction s)"
  by (simp add: update_physics_def update_oscillation_def update_rotation_def
      update_speed_def Let_def)

theorem update_physics_frame_witness:
  "\<not> oscillate (Fan3D_init ''ceiling'')
   \<and> oscillate_angle (update_physics (16 / 1000) (Fan3D_init ''ceiling'')) = 0
   \<and> oscillate_direction (update_physics (16 / 1000) (Fan3D_init ''ceiling'')) = 1
   \<and> target_speed (update_physics (16 / 1000) (Fan3D_init ''ceiling'')) = 2
   \<and> blade_count (update_physics (16 / 1000) (Fan3D_init ''ceiling'')) = 3"
  using update_physics_frame [of "16 / 1000" "Fan3D_init ''ceiling''"]
  by (simp add: Fan3D_init_def configure_fan_def configs_def ceiling_config_def Let_def)

text \<open>
  Claim C8. For a fan type that is none of the five names, \<open>configure_fan\<close> returns (it
  is a total function) and sets the six configured attributes to exactly what it sets
  for the type \<open>'ceiling'\<close>: 3 blades of length 1.5 and width 0.3, motor radius 0.2, no
  stand, tilt 0.
\<close>

theorem unknown_archetype_is_ceiling:
  assumes "fan_type s \<notin> {''ceiling'', ''table'', ''tower'', ''industrial'', ''desk''}"
  shows "configure_fan s = (configure_fan (s\<lparr>fan_type := ''ceiling''\<rparr>))\<lparr>fan_type := fan_type s\<rparr>
     \<and> blade_count (configure_fan s) = blade_count (configure_fan (s\<lparr>fan_type := ''ceiling''\<rparr>))
     \<and> blade_length (configure_fan s) = blade_length (configure_fan (s\<lparr>fan_type := ''ceiling''\<rparr>))
     \<and> blade_width (configure_fan s) = blade_width (configure_fan (s\<lparr>fan_type := ''ceiling''\<rparr>))
     \<and> motor_radius (configure_fan s) = motor_radius (configure_fan (s\<lparr>fan_type := ''ceiling''\<rparr>))
     \<and> has_stand (configure_fan s) = has_stand (configure_fan (s\<lparr>fan_type := ''ceiling''\<rparr>))
     \<and> tilt_angle (configure_fan s) = tilt_angle (configure_fan (s\<lparr>fan_type := ''ceiling''\<rparr>))
     \<and> blade_count (configure_fan s) = 3 \<and> blade_length (configure_fan s) = 15 / 10
     \<and> blade_width (configure_fan s) = 3 / 10 \<and> motor_radius (configure_fan s) = 2 / 10
     \<and> \<not> has_stand (configure_fan s) \<and> tilt_angle (configure_fan s) = 0"
  using configs_unknown [OF assms]
  by (simp add: configure_fan_def configs_ceiling ceiling_config_def Let_def)

theorem unknown_archetype_is_ceiling_witness:
  "fan_type (Fan3D_init ''pedestal'') \<notin> {''ceiling'', ''table'', ''tower'', ''industrial'', ''desk''}
   \<and> blade_count (configure_fan (Fan3D_init ''pedestal'')) = 3
   \<and> blade_length (configure_fan (Fan3D_init ''pedestal'')) = 15 / 10
   \<and> \<not> has_stand (configure_fan (Fan3D_init ''pedestal''))"
proof -
  have ft: "fan_type (Fan3D_init ''pedestal'') = ''pedestal''"
    by (simp add: Fan3D_init_def configure_fan_def Let_def)
  have out: "fan_type (Fan3D_init ''pedestal'')
      \<notin> {''ceiling'', ''table'', ''tower'', ''industrial'', ''desk''}"
    by (simp add: ft)
  from unknown_archetype_is_ceiling [OF out] out show ?thesis by blast
qed

subsection \<open>Meshes\<close>

text \<open>
  The geometry generators: the sizes of the meshes and the form of their faces.
\<close>

lemma length_np_linspace [simp]: "length (np_linspace a b n) = n"
  by (simp add: np_linspace_def)

lemma length_concat_rows:
  "length (concat (map (\<lambda>i. map (g i) xs) ys)) = length ys * length xs"
  by (induction ys) simp_all

lemma length_concat_pairs:
  "length (concat (map (\<lambda>t. [p t, q t]) xs)) = 2 * length xs"
  by (induction xs) simp_all

lemma blade_quad_fst:
  "length (fst (blade_quad p i m)) = length (fst m) + 4"
  by (simp add: blade_quad_def split_beta Let_def)

lemma blade_quad_snd:
  "snd (blade_quad p i m) =
     snd m @ [[int (length (fst m)), int (length (fst m)) + 1,
               int (length (fst m)) + 2, int (length (fst m)) + 3]]"
  by (simp add: blade_quad_def split_beta Let_def)

lemma blade_fold_fst:
  "length (fst (fold (blade_quad p) xs m)) = length (fst m) + 4 * length xs"
  by (induction xs arbitrary: m) (simp_all add: blade_quad_fst)

lemma blade_fold_snd:
  "snd (fold (blade_quad p) xs m) =
     snd m @ map (\<lambda>k. [int (length (fst m)) + 4 * int k, int (length (fst m)) + 4 * int k + 1,
                        int (length (fst m)) + 4 * int k + 2, int (length (fst m)) + 4 * int k + 3])
                 [0..<length xs]"
proof (induction xs arbitrary: m)
  case Nil
  then show ?case by simp
next
  case (Cons x xs)
  show ?case
    by (simp add: Cons.IH blade_quad_fst blade_quad_snd map_upt_Suc del: upt_Suc)
qed

lemma generate_blade_vertices: "length (fst (generate_blade s off)) = 80"
  by (simp add: generate_blade_def Let_def blade_fold_fst num_segments_def)

lemma generate_blade_faces:
  "snd (generate_blade s off) =
     map (\<lambda>k. [4 * int k, 4 * int k + 1, 4 * int k + 2, 4 * int k + 3]) [0..<20]"
  by (simp add: generate_blade_def Let_def blade_fold_snd num_segments_def del: upt_Suc)

lemma length_ring_faces: "length (ring_faces rows n) = rows * (n - 1)"
  by (simp add: ring_faces_def length_concat_rows)

lemma ring_faces_5_32:
  assumes "f \<in> set (ring_faces 5 32)" "i \<in> set f"
  shows "0 \<le> i \<and> i < 192"
  using assms by (auto simp: ring_faces_def Let_def)

lemma ring_faces_19_16:
  assumes "f \<in> set (ring_faces 19 16)" "i \<in> set f"
  shows "0 \<le> i \<and> i < 320"
  using assms by (auto simp: ring_faces_def Let_def)

lemma motor_vertices: "length (fst (generate_motor_housing s)) = 192"
  by (simp add: generate_motor_housing_def Let_def length_concat_rows height_segments_def)

lemma motor_faces: "snd (generate_motor_housing s) = ring_faces 5 32"
  by (simp add: generate_motor_housing_def Let_def height_segments_def)

lemma stand_vertices: "length (fst (generate_stand s)) = (if has_stand s then 352 else 0)"
  by (simp add: generate_stand_def Let_def length_concat_rows length_concat_pairs)


lemma stand_faces: "snd (generate_stand s) = (if has_stand s then ring_faces 19 16 else [])"
  by (simp add: generate_stand_def Let_def)

lemma cage_vertices: "length (fst (generate_safety_cage s)) = 256"
  by (simp add: generate_safety_cage_def Let_def length_concat_rows)

lemma cage_faces:
  "snd (generate_safety_cage s) =
     concat (map (\<lambda>i. map (\<lambda>j. [int (j * 16 + i), int (j * 16 + i) + 1,
                                   int ((8 + j) * 16 + i) + 1, int ((8 + j) * 16 + i)])
                            [0..<7])
                 [0..<15])"
  by (simp add: generate_safety_cage_def Let_def)

lemma cage_faces_length: "length (snd (generate_safety_cage s)) = 105"
  unfolding cage_faces by (simp add: length_concat_rows)

lemma cage_faces_valid:
  assumes "f \<in> set (snd (generate_safety_cage s))" "i \<in> set f"
  shows "0 \<le> i \<and> i < 256"
  using assms unfolding cage_faces by auto

lemma blade_faces_valid:
  assumes "f \<in> set (snd (generate_blade s off))" "i \<in> set f"
  shows "0 \<le> i \<and> i < 80"
  using assms unfolding generate_blade_faces by auto

text \<open>
  Claim C7. For every configuration (and every angle offset of the blade), each index in
  each face of the mesh returned by the blade, motor housing, stand and safety cage
  generator is at least 0 and below the number of vertices of that same mesh.
\<close>

theorem face_indices_valid:
  "(\<forall>f \<in> set (snd (generate_blade s off)). \<forall>i \<in> set f.
       0 \<le> i \<and> i < int (length (fst (generate_blade s off))))
   \<and> (\<forall>f \<in> set (snd (generate_motor_housing s)). \<forall>i \<in> set f.
       0 \<le> i \<and> i < int (length (fst (generate_motor_housing s))))
   \<and> (\<forall>f \<in> set (snd (generate_stand s)). \<forall>i \<in> set f.
       0 \<le> i \<and> i < int (length (fst (generate_stand s))))
   \<and> (\<forall>f \<in> set (snd (generate_safety_cage s)). \<forall>i \<in> set f.
       0 \<le> i \<and> i < int (length (fst (generate_safety_cage s))))"
proof (intro conjI ballI)
  fix f i assume "f \<in> set (snd (generate_blade s off))" "i \<in> set f"
  from blade_faces_valid [OF this] show "0 \<le> i" "i < int (length (fst (generate_blade s off)))"
    by (simp_all add: generate_blade_vertices)
next
  fix f i assume "f \<in> set (snd (generate_motor_housing s))" "i \<in> set f"
  then have "0 \<le> i \<and> i < 192" using ring_faces_5_32 by (simp add: motor_faces)
  then show "0 \<le> i" "i < int (length (fst (generate_motor_housing s)))"
    by (simp_all add: motor_vertices)
next
  fix f i assume a: "f \<in> set (snd (generate_stand s))" "i \<in> set f"
  then have st: "has_stand s" by (auto simp: stand_faces split: if_splits)
  with a have "0 \<le> i \<and> i < 320" using ring_faces_19_16 by (simp add: stand_faces)
  then show "0 \<le> i" "i < int (length (fst (generate_stand s)))"
    using st by (simp_all add: stand_vertices)
next
  fix f i assume "f \<in> set (snd (generate_safety_cage s))" "i \<in> set f"
  from cage_faces_valid [OF this] show "0 \<le> i" "i < int (length (fst (generate_safety_cage s)))"
    by (simp_all add: cage_vertices)
qed

lemma ring_faces_mem:
  assumes "i < rows" "j < n - 1"
  shows "[int (i * n + j), int (i * n + j) + 1, int (i * n + j) + int n + 1,
          int (i * n + j) + int n] \<in> set (ring_faces rows n)"
  unfolding ring_faces_def Let_def set_concat set_map
proof (rule UN_I)
  show "map (\<lambda>j. [int (i * n + j), int (i * n + j) + 1, int (i * n + j) + int n + 1,
                   int (i * n + j) + int n]) [0..<n - 1]
        \<in> (\<lambda>i. map (\<lambda>j. [int (i * n + j), int (i * n + j) + 1, int (i * n + j) + int n + 1,
                   int (i * n + j) + int n]) [0..<n - 1]) ` set [0..<rows]"
    using assms(1) by (intro imageI) simp
  show "[int (i * n + j), int (i * n + j) + 1, int (i * n + j) + int n + 1, int (i * n + j) + int n]
        \<in> set (map (\<lambda>j. [int (i * n + j), int (i * n + j) + 1, int (i * n + j) + int n + 1,
                   int (i * n + j) + int n]) [0..<n - 1])"
    unfolding set_map using assms(2) by (intro imageI) simp
qed

lemma ring_faces_last_5_32: "[158, 159, 191, 190] \<in> set (ring_faces 5 32)"
  using ring_faces_mem [of 4 5 30 32] by simp

lemma ring_faces_last_19_16: "[302, 303, 319, 318] \<in> set (ring_faces 19 16)"
  using ring_faces_mem [of 18 19 14 16] by simp

theorem face_indices_valid_witness:
  "[158, 159, 191, 190] \<in> set (snd (generate_motor_housing (Fan3D_init ''table'')))
   \<and> (191::int) < int (length (fst (generate_motor_housing (Fan3D_init ''table''))))
   \<and> [76, 77, 78, 79] \<in> set (snd (generate_blade (Fan3D_init ''table'') 0))
   \<and> (79::int) < int (length (fst (generate_blade (Fan3D_init ''table'') 0)))
   \<and> [302, 303, 319, 318] \<in> set (snd (generate_stand (Fan3D_init ''table'')))
   \<and> (319::int) < int (length (fst (generate_stand (Fan3D_init ''table''))))"
proof -
  have m: "[158, 159, 191, 190] \<in> set (snd (generate_motor_housing (Fan3D_init ''table'')))"
    by (simp add: motor_faces ring_faces_last_5_32)
  have b: "[76, 77, 78, 79] \<in> set (snd (generate_blade (Fan3D_init ''table'') 0))"
  proof -
    have "(\<lambda>k. [4 * int k, 4 * int k + 1, 4 * int k + 2, 4 * int k + 3]) 19
          \<in> set (snd (generate_blade (Fan3D_init ''table'') 0))"
      unfolding generate_blade_faces set_map by (rule imageI) simp
    then show ?thesis by simp
  qed
  have hs: "has_stand (Fan3D_init ''table'')"
    by (simp add: Fan3D_init_def configure_fan_def configs_def table_config_def Let_def)
  have st: "[302, 303, 319, 318] \<in> set (snd (generate_stand (Fan3D_init ''table'')))"
    by (simp add: stand_faces hs ring_faces_last_19_16)
  from face_indices_valid [of "Fan3D_init ''table''" 0] m b st
  show ?thesis by fastforce
qed


lemma concat_rows_nth:
  assumes "i < m" "j < length xs"
  shows "concat (map (\<lambda>i. map (g i) xs) [0..<m]) ! (i * length xs + j) = g i (xs ! j)"
  using assms
proof (induction m)
  case 0
  then show ?case by simp
next
  case (Suc m)
  have len: "length (concat (map (\<lambda>i. map (g i) xs) [0..<m])) = m * length xs"
    by (simp add: length_concat_rows)
  show ?case
  proof (cases "i < m")
    case True
    have "Suc i * length xs \<le> m * length xs"
      using True by (intro mult_le_mono1) simp
    then have "i * length xs + j < m * length xs"
      using Suc.prems(2) by simp
    then show ?thesis
      using Suc.IH [OF True Suc.prems(2)] by (simp add: nth_append len)
  next
    case False
    then have "i = m" using Suc.prems(1) by simp
    then show ?thesis
      using Suc.prems(2) by (simp add: nth_append len)
  qed
qed

lemma np_linspace_nth:
  "k < n \<Longrightarrow> np_linspace a b n ! k = a + of_nat k * ((b - a) / of_nat (n - 1))"
  by (simp add: np_linspace_def)

lemma motor_vertex:
  assumes "i < 6" "j < 32"
  shows "fst (generate_motor_housing s) ! (i * 32 + j) =
           (motor_r s i * cos (of_nat j * (2 * pi / 31)),
            motor_r s i * sin (of_nat j * (2 * pi / 31)),
            motor_z i)"
proof -
  let ?theta = "np_linspace 0 (2 * pi) 32"
  have "fst (generate_motor_housing s) ! (i * length ?theta + j) =
          (motor_r s i * cos (?theta ! j), motor_r s i * sin (?theta ! j), motor_z i)"
    unfolding generate_motor_housing_def Let_def fst_conv
    using assms by (intro concat_rows_nth) (simp_all add: height_segments_def)
  then show ?thesis using assms(2) by (simp add: np_linspace_nth)
qed

lemma ring_faces_nth:
  assumes "i < rows" "j < n - 1"
  shows "ring_faces rows n ! (i * (n - 1) + j) =
           [int (i * n + j), int (i * n + j) + 1, int (i * n + j) + int n + 1,
            int (i * n + j) + int n]"
proof -
  have "ring_faces rows n ! (i * length [0..<n - 1] + j) =
          (let idx = int (i * n + ([0..<n - 1] ! j))
           in [idx, idx + 1, idx + int n + 1, idx + int n])"
    unfolding ring_faces_def using assms by (intro concat_rows_nth) simp_all
  then show ?thesis using assms(2) by (simp add: Let_def)
qed


lemma motor_faces_length: "length (snd (generate_motor_housing s)) = 155"
  by (simp add: motor_faces length_ring_faces)

lemma stand_faces_length: "length (snd (generate_stand s)) = (if has_stand s then 285 else 0)"
  by (simp add: stand_faces length_ring_faces)

lemma generate_blade_faces_length: "length (snd (generate_blade s off)) = 20"
  by (simp add: generate_blade_faces)

text \<open>
  Claim C9, as amended. The motor housing has 32 angular samples at each of 6 height
  levels, 192 vertices: vertex \<open>i * 32 + j\<close> lies at height \<open>-0.2 + 0.08 * i\<close> (from -0.2
  to 0.2 in 5 steps), at angle \<open>j * 2 * pi / 31\<close>, on the radius
  \<open>motor_radius * (1 + 0.1 * sin (i * pi / 5))\<close>. Its 155 faces are the quads over
  \<open>idx = i * 32 + j\<close> for \<open>i < 5\<close> and \<open>j < 31\<close>, joining \<open>idx\<close>, \<open>idx + 1\<close> and the two
  vertices above them.
\<close>

theorem motor_housing_shape:
  "length (fst (generate_motor_housing s)) = 32 * 6
   \<and> (\<forall>i<6. \<forall>j<32.
        fst (generate_motor_housing s) ! (i * 32 + j) =
          (motor_radius s * (1 + (1 / 10) * sin (of_nat i * pi / 5)) * cos (of_nat j * (2 * pi / 31)),
           motor_radius s * (1 + (1 / 10) * sin (of_nat i * pi / 5)) * sin (of_nat j * (2 * pi / 31)),
           - (2 / 10) + of_nat i * (8 / 100)))
   \<and> length (snd (generate_motor_housing s)) = 31 * 5
   \<and> (\<forall>i<5. \<forall>j<31.
        snd (generate_motor_housing s) ! (i * 31 + j) =
          [int (i * 32 + j), int (i * 32 + j) + 1, int (i * 32 + j) + 33, int (i * 32 + j) + 32])"
proof (intro conjI allI impI)
  show "length (fst (generate_motor_housing s)) = 32 * 6"
    by (simp add: motor_vertices)
  show "length (snd (generate_motor_housing s)) = 31 * 5"
    by (simp add: motor_faces_length)
next
  fix i j :: nat assume "i < 6" "j < 32"
  from motor_vertex [OF this, of s]
  show "fst (generate_motor_housing s) ! (i * 32 + j) =
          (motor_radius s * (1 + (1 / 10) * sin (of_nat i * pi / 5)) * cos (of_nat j * (2 * pi / 31)),
           motor_radius s * (1 + (1 / 10) * sin (of_nat i * pi / 5)) * sin (of_nat j * (2 * pi / 31)),
           - (2 / 10) + of_nat i * (8 / 100))"
    by (simp add: motor_r_def motor_z_def height_segments_def)
next
  fix i j :: nat assume "i < 5" "j < 31"
  then have "i < 5" "j < 32 - 1" by simp_all
  from ring_faces_nth [OF this]
  show "snd (generate_motor_housing s) ! (i * 31 + j) =
          [int (i * 32 + j), int (i * 32 + j) + 1, int (i * 32 + j) + 33, int (i * 32 + j) + 32]"
    by (simp add: motor_faces)
qed

theorem motor_housing_shape_witness:
  "(5::nat) < 6 \<and> (0::nat) < 32 \<and> (4::nat) < 5 \<and> (30::nat) < 31
   \<and> fst (generate_motor_housing (Fan3D_init ''ceiling'')) ! 160 = (2 / 10, 0, 2 / 10)
   \<and> snd (generate_motor_housing (Fan3D_init ''ceiling'')) ! 154 = [158, 159, 191, 190]"
proof -
  have mr: "motor_radius (Fan3D_init ''ceiling'') = 2 / 10"
    by (simp add: Fan3D_init_def configure_fan_def configs_def ceiling_config_def Let_def)
  from motor_housing_shape [of "Fan3D_init ''ceiling''"]
  have v: "\<forall>i<6. \<forall>j<32.
        fst (generate_motor_housing (Fan3D_init ''ceiling'')) ! (i * 32 + j) =
          (motor_radius (Fan3D_init ''ceiling'') * (1 + (1 / 10) * sin (of_nat i * pi / 5))
             * cos (of_nat j * (2 * pi / 31)),
           motor_radius (Fan3D_init ''ceiling'') * (1 + (1 / 10) * sin (of_nat i * pi / 5))
             * sin (of_nat j * (2 * pi / 31)),
           - (2 / 10) + of_nat i * (8 / 100))"
    and f: "\<forall>i<5. \<forall>j<31.
        snd (generate_motor_housing (Fan3D_init ''ceiling'')) ! (i * 31 + j) =
          [int (i * 32 + j), int (i * 32 + j) + 1, int (i * 32 + j) + 33, int (i * 32 + j) + 32]"
    by blast+
  from v [rule_format, of 5 0] have "fst (generate_motor_housing (Fan3D_init ''ceiling'')) ! 160
      = (2 / 10, 0, 2 / 10)"
    by (simp add: mr)
  moreover from f [rule_format, of 4 30]
  have "snd (generate_motor_housing (Fan3D_init ''ceiling'')) ! 154 = [158, 159, 191, 190]"
    by simp
  ultimately show ?thesis by simp
qed

text \<open>
  Claim C9 as stated fails: the housing of a ceiling fan does not have 33 * 6 = 198
  vertices.
\<close>

theorem motor_housing_not_33_samples:
  "length (fst (generate_motor_housing (Fan3D_init ''ceiling''))) \<noteq> 33 * 6
   \<and> length (fst (generate_motor_housing (Fan3D_init ''ceiling''))) \<noteq> 198"
  by (simp add: motor_vertices)

text \<open>
  Claim C6, as amended. No generator looks at whether a count or a dimension is zero,
  and each returns a mesh for every configuration: the blade 80 vertices and 20 faces,
  the motor housing 192 and 155, the safety cage 256 and 105, the stand 352 and 285 when
  the fan has a stand. The only empty mesh is that of the stand of a fan without one.
\<close>

theorem generators_never_empty_on_zero_extent:
  "length (fst (generate_blade s off)) = 80 \<and> length (snd (generate_blade s off)) = 20
   \<and> length (fst (generate_motor_housing s)) = 192
   \<and> length (snd (generate_motor_housing s)) = 155
   \<and> length (fst (generate_safety_cage s)) = 256
   \<and> length (snd (generate_safety_cage s)) = 105
   \<and> length (fst (generate_stand s)) = (if has_stand s then 352 else 0)
   \<and> length (snd (generate_stand s)) = (if has_stand s then 285 else 0)"
  by (simp add: generate_blade_vertices generate_blade_faces_length motor_vertices
      motor_faces_length cage_vertices cage_faces_length stand_vertices stand_faces_length)

text \<open>
  Claim C6 as stated fails: with blade count, blade length, blade width and motor radius
  all 0, the blade and the motor housing are not empty meshes.
\<close>

theorem zero_extent_mesh_not_empty:
  "generate_blade ((Fan3D_init ''ceiling'')\<lparr>blade_count := 0, blade_length := 0,
       blade_width := 0, motor_radius := 0\<rparr>) 0 \<noteq> ([], [])
   \<and> fst (generate_blade ((Fan3D_init ''ceiling'')\<lparr>blade_count := 0, blade_length := 0,
       blade_width := 0, motor_radius := 0\<rparr>) 0) \<noteq> []
   \<and> snd (generate_blade ((Fan3D_init ''ceiling'')\<lparr>blade_count := 0, blade_length := 0,
       blade_width := 0, motor_radius := 0\<rparr>) 0) \<noteq> []
   \<and> fst (generate_motor_housing ((Fan3D_init ''ceiling'')\<lparr>blade_count := 0, blade_length := 0,
       blade_width := 0, motor_radius := 0\<rparr>)) \<noteq> []
   \<and> snd (generate_motor_housing ((Fan3D_init ''ceiling'')\<lparr>blade_count := 0, blade_length := 0,
       blade_width := 0, motor_radius := 0\<rparr>)) \<noteq> []"
proof -
  have ne: "xs \<noteq> []" if "length xs = Suc n" for xs :: "'a list" and n
    using that by auto
  let ?s = "(Fan3D_init ''ceiling'')\<lparr>blade_count := 0, blade_length := 0,
       blade_width := 0, motor_radius := 0\<rparr>"
  have a: "fst (generate_blade ?s 0) \<noteq> []"
    by (rule ne [of _ 79]) (simp add: generate_blade_vertices)
  have b: "snd (generate_blade ?s 0) \<noteq> []"
    by (rule ne [of _ 19]) (simp add: generate_blade_faces_length)
  have c: "fst (generate_motor_housing ?s) \<noteq> []"
    by (rule ne [of _ 191]) (simp add: motor_vertices)
  have d: "snd (generate_motor_housing ?s) \<noteq> []"
    by (rule ne [of _ 154]) (simp add: motor_faces_length)
  from a have "generate_blade ?s 0 \<noteq> ([], [])" by auto
  with a b c d show ?thesis by blast
qed

subsection \<open>Shading\<close>

lemma py_index_valid:
  assumes "- int (length xs) \<le> i" "i < int (length xs)"
  shows "py_index xs i = Inr (projr (py_index xs i))"
  using assms by (simp add: py_index_def)

lemma face_intensity_range: "0 \<le> face_intensity mode n \<and> face_intensity mode n \<le> 1"
  by (simp add: face_intensity_def np_clip_def)

lemma face_intensity_flat: "face_intensity ''flat'' n = 1"
  by (simp add: face_intensity_def np_clip_def)

lemma shade_faces_valid:
  assumes "\<forall>f \<in> set faces. \<forall>i \<in> set f. - int (length vertices) \<le> i \<and> i < int (length vertices)"
  shows "shade_faces mode vertices color faces =
           Inr (map (\<lambda>f. face_color color
                            (face_intensity mode
                               (face_normal (projr (py_index vertices (f ! 0)))
                                            (projr (py_index vertices (f ! 1)))
                                            (projr (py_index vertices (f ! 2))))))
                    (filter (\<lambda>f. 3 \<le> length f) faces))"
  using assms
proof (induction faces)
  case Nil
  then show ?case by simp
next
  case (Cons face faces)
  then have IH: "shade_faces mode vertices color faces =
           Inr (map (\<lambda>f. face_color color
                            (face_intensity mode
                               (face_normal (projr (py_index vertices (f ! 0)))
                                            (projr (py_index vertices (f ! 1)))
                                            (projr (py_index vertices (f ! 2))))))
                    (filter (\<lambda>f. 3 \<le> length f) faces))"
    by simp
  show ?case
  proof (cases "length face < 3")
    case True
    then show ?thesis using IH by simp
  next
    case False
    then have len: "0 < length face" "1 < length face" "2 < length face"
      by auto
    have mem: "face ! 0 \<in> set face" "face ! 1 \<in> set face" "face ! 2 \<in> set face"
      by (rule nth_mem [OF len(1)], rule nth_mem [OF len(2)], rule nth_mem [OF len(3)])
    have ok: "- int (length vertices) \<le> i \<and> i < int (length vertices)" if "i \<in> set face" for i
      using Cons.prems that by simp
    have r: "py_index vertices (face ! 0) = Inr (projr (py_index vertices (face ! 0)))"
      "py_index vertices (face ! 1) = Inr (projr (py_index vertices (face ! 1)))"
      "py_index vertices (face ! 2) = Inr (projr (py_index vertices (face ! 2)))"
      using ok [OF mem(1)] ok [OF mem(2)] ok [OF mem(3)] by (blast intro: py_index_valid)+
    obtain v0 v1 v2 where v: "py_index vertices (face ! 0) = Inr v0"
      "py_index vertices (face ! 1) = Inr v1" "py_index vertices (face ! 2) = Inr v2"
      using r by blast
    show ?thesis using False IH v by simp
  qed
qed


lemma no_vertices_no_faces:
  assumes "\<forall>f \<in> set faces. \<forall>i \<in> set f. - int (length vertices) \<le> i \<and> i < int (length vertices)"
    and "length vertices = 0"
  shows "filter (\<lambda>f. 3 \<le> length f) faces = []"
proof -
  have "length f = 0" if "f \<in> set faces" for f
  proof (cases f)
    case Nil
    then show ?thesis by simp
  next
    case (Cons i rest)
    then have "i \<in> set f" by simp
    with assms that show ?thesis by fastforce
  qed
  then show ?thesis by (fastforce simp: filter_empty_conv)
qed

text \<open>
  Claim C4. For a mesh whose face indices are all valid indices of its vertex array, any
  base colour and any lighting mode (the three named ones included), \<open>apply_lighting\<close>
  returns, and returns one colour for each face of at least three indices, in the order
  of the faces; faces of fewer indices give no entry. The \<open>k\<close>-th colour is the base
  colour with its first three channels multiplied by the intensity of the \<open>k\<close>-th such
  face, which lies between 0 and 1, and with the base alpha unchanged.
\<close>

theorem apply_lighting_one_color_per_face:
  assumes valid: "\<forall>f \<in> set faces. \<forall>i \<in> set f.
      - int (length vertices) \<le> i \<and> i < int (length vertices)"
  shows "\<exists>face_colors.
      apply_lighting s vertices faces (c0, c1, c2, c3) = Inr face_colors
      \<and> length face_colors = length (filter (\<lambda>f. 3 \<le> length f) faces)
      \<and> (\<forall>k < length face_colors.
            \<exists>intensity. 0 \<le> intensity \<and> intensity \<le> 1
              \<and> intensity =
                  (let f = filter (\<lambda>f. 3 \<le> length f) faces ! k
                   in face_intensity (lighting_mode s)
                        (face_normal (projr (py_index vertices (f ! 0)))
                                     (projr (py_index vertices (f ! 1)))
                                     (projr (py_index vertices (f ! 2)))))
              \<and> face_colors ! k = (c0 * intensity, c1 * intensity, c2 * intensity, c3))"
proof -
  let ?shade = "\<lambda>f. face_color (c0, c1, c2, c3)
      (face_intensity (lighting_mode s)
         (face_normal (projr (py_index vertices (f ! 0)))
                      (projr (py_index vertices (f ! 1)))
                      (projr (py_index vertices (f ! 2)))))"
  let ?kept = "filter (\<lambda>f. 3 \<le> length f) faces"
  have res: "apply_lighting s vertices faces (c0, c1, c2, c3) = Inr (map ?shade ?kept)"
  proof (cases "length vertices = 0 \<or> length faces = 0")
    case True
    then have "?kept = []"
      using no_vertices_no_faces [OF valid] by auto
    then show ?thesis using True by (simp add: apply_lighting_def)
  next
    case False
    then show ?thesis
      using shade_faces_valid [OF valid] by (simp add: apply_lighting_def)
  qed
  have "\<exists>intensity. 0 \<le> intensity \<and> intensity \<le> 1
              \<and> intensity =
                  (let f = ?kept ! k
                   in face_intensity (lighting_mode s)
                        (face_normal (projr (py_index vertices (f ! 0)))
                                     (projr (py_index vertices (f ! 1)))
                                     (projr (py_index vertices (f ! 2)))))
              \<and> map ?shade ?kept ! k = (c0 * intensity, c1 * intensity, c2 * intensity, c3)"
    if "k < length (map ?shade ?kept)" for k
    using that face_intensity_range by (simp add: face_color_def Let_def)
  with res show ?thesis by (intro exI [of _ "map ?shade ?kept"]) simp
qed


theorem apply_lighting_one_color_per_face_witness:
  "list_all (list_all (\<lambda>i. - int (length ([(0, 0, 0), (1, 0, 0), (0, 1, 0)] :: vec3 list)) \<le> i
                              \<and> i < int (length ([(0, 0, 0), (1, 0, 0), (0, 1, 0)] :: vec3 list))))
     [[0, 1, 2], [0, 1]]
   \<and> apply_lighting ((Fan3D_init ''ceiling'')\<lparr>lighting_mode := ''flat''\<rparr>)
         [(0, 0, 0), (1, 0, 0), (0, 1, 0)] [[0, 1, 2], [0, 1]] (2 / 10, 3 / 10, 5 / 10, 9 / 10)
       = Inr [(2 / 10, 3 / 10, 5 / 10, 9 / 10)]"
proof -
  let ?vs = "[(0, 0, 0), (1, 0, 0), (0, 1, 0)] :: vec3 list"
  let ?fs = "[[0, 1, 2], [0, 1]] :: int list list"
  let ?s = "(Fan3D_init ''ceiling'')\<lparr>lighting_mode := ''flat''\<rparr>"
  have valid: "\<forall>f \<in> set ?fs. \<forall>i \<in> set f. - int (length ?vs) \<le> i \<and> i < int (length ?vs)"
    by simp
  from apply_lighting_one_color_per_face [OF valid, of ?s "2 / 10" "3 / 10" "5 / 10" "9 / 10"]
  obtain cols where res: "apply_lighting ?s ?vs ?fs (2 / 10, 3 / 10, 5 / 10, 9 / 10) = Inr cols"
    and len: "length cols = length (filter (\<lambda>f. 3 \<le> length f) ?fs)"
    and col: "\<forall>k < length cols.
            \<exists>intensity. 0 \<le> intensity \<and> intensity \<le> 1
              \<and> intensity =
                  (let f = filter (\<lambda>f. 3 \<le> length f) ?fs ! k
                   in face_intensity (lighting_mode ?s)
                        (face_normal (projr (py_index ?vs (f ! 0)))
                                     (projr (py_index ?vs (f ! 1)))
                                     (projr (py_index ?vs (f ! 2)))))
              \<and> cols ! k = ((2 / 10) * intensity, (3 / 10) * intensity, (5 / 10) * intensity, 9 / 10)"
    by blast
  from len have l1: "length cols = 1" by simp
  then have "0 < length cols" by simp
  with col obtain intensity where
    i: "intensity =
          (let f = filter (\<lambda>f. 3 \<le> length f) ?fs ! 0
           in face_intensity (lighting_mode ?s)
                (face_normal (projr (py_index ?vs (f ! 0)))
                             (projr (py_index ?vs (f ! 1)))
                             (projr (py_index ?vs (f ! 2)))))"
    and c: "cols ! 0 = ((2 / 10) * intensity, (3 / 10) * intensity, (5 / 10) * intensity, 9 / 10)"
    by blast
  have "lighting_mode ?s = ''flat''" by simp
  with i have "intensity = 1" by (simp add: Let_def face_intensity_flat)
  with c have "cols ! 0 = (2 / 10, 3 / 10, 5 / 10, 9 / 10)" by simp
  moreover from l1 have "cols = [cols ! 0]"
    by (cases cols) simp_all
  ultimately have eq: "cols = [(2 / 10, 3 / 10, 5 / 10, 9 / 10)]" by simp
  have "list_all (list_all (\<lambda>i. - int (length ?vs) \<le> i \<and> i < int (length ?vs))) ?fs"
    by simp
  from this res [unfolded eq] show ?thesis by (rule conjI)
qed


text \<open>
  Where the indices are not valid the call is outside the claim: without vertices it
  returns no colour at all, and an index beyond the array raises.
\<close>

lemma apply_lighting_outside_meshes:
  "apply_lighting s [] [[0, 1, 2]] c = Inr []"
  "apply_lighting s [v] [[0, 1, 2]] c = Inl IndexError"
  by (simp_all add: apply_lighting_def py_index_def)

end
